theory Spec2Isabelle
  imports Complex_Main "HOL-Library.AList"
begin

unbundle bit_operations_syntax

section \<open>Firmware fingerprinting of the retrofit port (selfdrive/car/retrofit)\<close>

text \<open>
  The development embeds \<^verbatim>\<open>get_platform_codes\<close> and \<^verbatim>\<open>match_fw_to_car_fuzzy\<close> of
  \<^verbatim>\<open>values.py\<close>, \<^verbatim>\<open>create_toyota_steer_command\<close> of \<^verbatim>\<open>retrofitcan.py\<close> and
  \<^verbatim>\<open>CarController.update\<close> of \<^verbatim>\<open>carcontroller.py\<close>.

  Python \<^verbatim>\<open>bytes\<close> are lists of 8-bit characters, Python's unbounded integers are
  \<open>int\<close> (\<open>nat\<close> where the value is a count), a \<^verbatim>\<open>dict\<close> is an association list in
  insertion order, and every place where the Python can raise is a branch that returns
  \<open>Inl\<close> of a \<open>py_error\<close>.
\<close>

subsection \<open>Bytes and errors\<close>

type_synonym bytes = "char list"

datatype py_error = IndexError | KeyError string | ValueError | TypeError

abbreviation NUL :: char where
  "NUL \<equiv> CHR 0x00"

text \<open>\<^verbatim>\<open>xs[i]\<close> for a non-negative index: raises IndexError out of range.\<close>

definition index :: "'a list \<Rightarrow> nat \<Rightarrow> py_error + 'a" where
  "index xs i = (if i < length xs then Inr (xs ! i) else Inl IndexError)"

text \<open>\<^verbatim>\<open>bytes.strip(b'\x00 ')\<close>: drops leading and trailing NUL and space bytes.\<close>

definition strip_chars :: "char list" where
  "strip_chars = [NUL, CHR '' '']"

definition strip :: "bytes \<Rightarrow> bytes" where
  "strip s = rev (dropWhile (\<lambda>c. c \<in> set strip_chars) (rev (dropWhile (\<lambda>c. c \<in> set strip_chars) s)))"

subsection \<open>The regular expressions of values.py\<close>

text \<open>
  Every pattern of the module is a sequence of items \<^verbatim>\<open>[class]{n}\<close>, some of them inside
  a capture group, one pattern anchored with \<^verbatim>\<open>^\<close>. A character class is a list of
  inclusive byte ranges. \<open>match_here\<close> matches the items at the start of the input and
  returns the matched bytes and the captured groups; \<open>re_search\<close> is \<^verbatim>\<open>Pattern.search\<close>:
  the leftmost position at which the items match (position 0 only when anchored).
\<close>

type_synonym charset = "(nat \<times> nat) list"

definition in_charset :: "charset \<Rightarrow> char \<Rightarrow> bool" where
  "in_charset cs c = list_ex (\<lambda>(lo, hi). lo \<le> of_char c \<and> of_char c \<le> hi) cs"

datatype item = Item charset nat bool

record pattern =
  anchored :: bool
  items :: "item list"

fun match_here :: "item list \<Rightarrow> bytes \<Rightarrow> (bytes \<times> bytes list) option" where
  "match_here [] s = Some ([], [])"
| "match_here (Item cs n captured # its) s =
     (if n \<le> length s \<and> list_all (in_charset cs) (take n s)
      then (case match_here its (drop n s) of
              None \<Rightarrow> None
            | Some (m, gs) \<Rightarrow> Some (take n s @ m, if captured then take n s # gs else gs))
      else None)"

fun search_from :: "item list \<Rightarrow> bytes \<Rightarrow> (bytes \<times> bytes list) option" where
  "search_from its [] = match_here its []"
| "search_from its (c # s) =
     (case match_here its (c # s) of
        Some r \<Rightarrow> Some r
      | None \<Rightarrow> search_from its s)"

definition re_search :: "pattern \<Rightarrow> bytes \<Rightarrow> (bytes \<times> bytes list) option" where
  "re_search p s = (if anchored p then match_here (items p) s else search_from (items p) s)"

text \<open>The class \<^verbatim>\<open>[A-Z0-9]\<close>.\<close>

definition AZ09 :: charset where
  "AZ09 = [(65, 90), (48, 57)]"

definition SHORT_FW_PATTERN :: pattern where
  "SHORT_FW_PATTERN =
     \<lparr>anchored = False,
      items = [Item AZ09 1 False, Item AZ09 2 True, Item AZ09 2 True, Item AZ09 3 True]\<rparr>"

definition MEDIUM_FW_PATTERN :: pattern where
  "MEDIUM_FW_PATTERN =
     \<lparr>anchored = False,
      items = [Item AZ09 5 True, Item AZ09 2 True, Item AZ09 1 True, Item AZ09 2 True]\<rparr>"

definition LONG_FW_PATTERN :: pattern where
  "LONG_FW_PATTERN =
     \<lparr>anchored = False,
      items = [Item AZ09 5 True, Item AZ09 2 True, Item AZ09 2 True, Item AZ09 3 True]\<rparr>"

definition FW_LEN_CODE :: pattern where
  "FW_LEN_CODE = \<lparr>anchored = True, items = [Item [(1, 3)] 1 False]\<rparr>"

definition FW_CHUNK_LEN :: nat where
  "FW_CHUNK_LEN = 16"

subsection \<open>get_platform_codes\<close>

text \<open>
  \<^verbatim>\<open>codes = defaultdict(set)\<close>: a dict from platform code to the set of its sub-versions,
  kept in insertion order. \<^verbatim>\<open>codes[k].add(v)\<close> creates the empty set for a new key (at the
  end of the order) and inserts into it.
\<close>

type_synonym codes = "(bytes \<times> bytes set) list"

definition codes_add :: "codes \<Rightarrow> bytes \<Rightarrow> bytes \<Rightarrow> codes" where
  "codes_add codes k v =
     AList.update k (insert v (case map_of codes k of None \<Rightarrow> {} | Some s \<Rightarrow> s)) codes"

text \<open>\<^verbatim>\<open>b'-'.join(parts)\<close>.\<close>

fun join :: "bytes \<Rightarrow> bytes list \<Rightarrow> bytes" where
  "join sep [] = []"
| "join sep [x] = x"
| "join sep (x # y # ys) = x @ sep @ join sep (y # ys)"

text \<open>
  Lines 90 to 94 of the loop body: the chunk count and the payload. \<^verbatim>\<open>group()[0]\<close> is
  the first byte of the match, read as an integer.
\<close>

definition parse_length_code :: "bytes \<Rightarrow> py_error + (nat \<times> bytes)" where
  "parse_length_code fw =
     (case re_search FW_LEN_CODE fw of
        None \<Rightarrow> Inr (1, fw)
      | Some (m, gs) \<Rightarrow>
          (case index m 0 of
             Inl e \<Rightarrow> Inl e
           | Inr b \<Rightarrow> Inr (of_char b, drop 1 fw)))"

text \<open>Line 100: the chunks, each stripped.\<close>

definition split_chunks :: "nat \<Rightarrow> bytes \<Rightarrow> bytes list" where
  "split_chunks length_code fw =
     map (\<lambda>i. strip (take FW_CHUNK_LEN (drop (FW_CHUNK_LEN * i) fw))) [0..<length_code]"

text \<open>
  Lines 104 to 121: the first chunk is classified by its length. Unpacking
  \<^verbatim>\<open>groups()\<close> into three or four names raises ValueError on another number of groups.
\<close>

definition classify :: "codes \<Rightarrow> bytes \<Rightarrow> py_error + codes" where
  "classify codes first_chunk =
     (if length first_chunk = 8 then
        (case re_search SHORT_FW_PATTERN first_chunk of
           None \<Rightarrow> Inr codes
         | Some (m, gs) \<Rightarrow>
             (case gs of
                [platform, major_version, sub_version] \<Rightarrow>
                  Inr (codes_add codes (join ''-'' [platform, major_version]) sub_version)
              | _ \<Rightarrow> Inl ValueError))
      else if length first_chunk = 10 then
        (case re_search MEDIUM_FW_PATTERN first_chunk of
           None \<Rightarrow> Inr codes
         | Some (m, gs) \<Rightarrow>
             (case gs of
                [part, platform, major_version, sub_version] \<Rightarrow>
                  Inr (codes_add codes (join ''-'' [part, platform, major_version]) sub_version)
              | _ \<Rightarrow> Inl ValueError))
      else if length first_chunk = 12 then
        (case re_search LONG_FW_PATTERN first_chunk of
           None \<Rightarrow> Inr codes
         | Some (m, gs) \<Rightarrow>
             (case gs of
                [part, platform, major_version, sub_version] \<Rightarrow>
                  Inr (codes_add codes (join ''-'' [part, platform, major_version]) sub_version)
              | _ \<Rightarrow> Inl ValueError))
      else Inr codes)"

text \<open>One iteration of the loop over \<^verbatim>\<open>fw_versions\<close>; \<^verbatim>\<open>continue\<close> leaves the codes as they are.\<close>

definition fw_step :: "codes \<Rightarrow> bytes \<Rightarrow> py_error + codes" where
  "fw_step codes fw0 =
     (case parse_length_code fw0 of
        Inl e \<Rightarrow> Inl e
      | Inr (length_code, fw) \<Rightarrow>
          if length_code * FW_CHUNK_LEN \<noteq> length fw then Inr codes
          else (case index (split_chunks length_code fw) 0 of
                  Inl e \<Rightarrow> Inl e
                | Inr first_chunk \<Rightarrow> classify codes first_chunk))"

fun fw_loop :: "codes \<Rightarrow> bytes list \<Rightarrow> py_error + codes" where
  "fw_loop codes [] = Inr codes"
| "fw_loop codes (fw # fws) =
     (case fw_step codes fw of
        Inl e \<Rightarrow> Inl e
      | Inr codes' \<Rightarrow> fw_loop codes' fws)"

definition get_platform_codes :: "bytes list \<Rightarrow> py_error + codes" where
  "get_platform_codes fw_versions = fw_loop [] fw_versions"

subsection \<open>match_fw_to_car_fuzzy\<close>

text \<open>
  \<^verbatim>\<open>Ecu\<close> is \<^verbatim>\<open>car.CarParams.Ecu\<close> of the cereal schema; the kinds are the ones values.py
  names. An entry of a fingerprint is keyed by \<^verbatim>\<open>(ecu, addr, sub_addr)\<close>, and \<^verbatim>\<open>ecu[1:]\<close>
  is the address \<^verbatim>\<open>(addr, sub_addr)\<close>, the key of the live firmware versions.
\<close>

datatype Ecu =
    Ecu_eps | Ecu_abs | Ecu_fwdRadar | Ecu_fwdCamera | Ecu_engine | Ecu_dsu | Ecu_epb
  | Ecu_telematics | Ecu_srs | Ecu_combinationMeter | Ecu_transmission | Ecu_gateway
  | Ecu_hvac | Ecu_hybrid

type_synonym address = "nat \<times> nat option"

type_synonym ecu_key = "Ecu \<times> address"

text \<open>A dict from ECU to its firmware versions, and the dict from candidate to that.\<close>

type_synonym fingerprint = "(ecu_key \<times> bytes list) list"

type_synonym catalog = "(string \<times> fingerprint) list"

text \<open>
  \<^verbatim>\<open>live_fw_versions\<close>: a dict from address to a set of firmware versions. The set is
  given as the list in which the loop of \<^verbatim>\<open>get_platform_codes\<close> iterates over it.
\<close>

type_synonym live_fw = "address \<Rightarrow> bytes list option"

definition PLATFORM_CODE_ECUS :: "Ecu list" where
  "PLATFORM_CODE_ECUS = [Ecu_fwdCamera, Ecu_abs, Ecu_eps]"

text \<open>\<^verbatim>\<open>live_fw_versions.get(addr, set())\<close>.\<close>

definition live_get :: "live_fw \<Rightarrow> address \<Rightarrow> bytes list" where
  "live_get live_fw_versions addr = (case live_fw_versions addr of None \<Rightarrow> [] | Some fws \<Rightarrow> fws)"

text \<open>Line 132.\<close>

definition valid_expected_ecus :: "fingerprint \<Rightarrow> address set" where
  "valid_expected_ecus fws =
     set (map snd (filter (\<lambda>ecu. fst ecu \<in> set PLATFORM_CODE_ECUS) (map fst fws)))"

text \<open>
  The loop of lines 133 to 151 over the entries of one candidate, with the set
  \<^verbatim>\<open>valid_found_ecus\<close> as its state; \<^verbatim>\<open>break\<close> returns the set as it is.
\<close>

fun ecu_loop :: "live_fw \<Rightarrow> fingerprint \<Rightarrow> address set \<Rightarrow> py_error + address set" where
  "ecu_loop live_fw_versions [] valid_found_ecus = Inr valid_found_ecus"
| "ecu_loop live_fw_versions ((ecu, expected_versions) # rest) valid_found_ecus =
     (let addr = snd ecu in
      if fst ecu \<notin> set PLATFORM_CODE_ECUS then ecu_loop live_fw_versions rest valid_found_ecus
      else
        (case get_platform_codes expected_versions of
           Inl e \<Rightarrow> Inl e
         | Inr expected_platform_codes \<Rightarrow>
             (case get_platform_codes (live_get live_fw_versions addr) of
                Inl e \<Rightarrow> Inl e
              | Inr found_platform_codes \<Rightarrow>
                  if \<not> list_ex (\<lambda>found_platform_code.
                                   found_platform_code \<in> set (map fst expected_platform_codes))
                               (map fst found_platform_codes)
                  then Inr valid_found_ecus
                  else ecu_loop live_fw_versions rest (insert addr valid_found_ecus))))"

text \<open>The loop of lines 129 to 155 over the candidates, with the set \<^verbatim>\<open>candidates\<close> as its state.\<close>

fun candidate_loop :: "live_fw \<Rightarrow> catalog \<Rightarrow> string set \<Rightarrow> py_error + string set" where
  "candidate_loop live_fw_versions [] candidates = Inr candidates"
| "candidate_loop live_fw_versions ((candidate, fws) # rest) candidates =
     (case ecu_loop live_fw_versions fws {} of
        Inl e \<Rightarrow> Inl e
      | Inr valid_found_ecus \<Rightarrow>
          candidate_loop live_fw_versions rest
            (if valid_expected_ecus fws \<subseteq> valid_found_ecus
             then insert candidate candidates else candidates))"

text \<open>
  The function reads the module's \<^verbatim>\<open>FW_VERSIONS\<close> and \<^verbatim>\<open>FUZZY_EXCLUDED_PLATFORMS\<close>; both are
  arguments here. \<^verbatim>\<open>FUZZY_EXCLUDED_PLATFORMS\<close> is written as
  \<^verbatim>\<open>{CAR.LEXUS_ES_TSS2, CAR.LEXUS_RX_TSS2}\<close>, two members that the \<^verbatim>\<open>CAR\<close> enumeration of
  this file does not declare, so the set stays an argument throughout. A \<^verbatim>\<open>CAR\<close> is a
  \<^verbatim>\<open>StrEnum\<close>: it is its string, and \<^verbatim>\<open>str(c)\<close> is the identity.
\<close>

definition match_fw_to_car_fuzzy ::
    "catalog \<Rightarrow> string set \<Rightarrow> live_fw \<Rightarrow> py_error + string set" where
  "match_fw_to_car_fuzzy fw_versions fuzzy_excluded_platforms live_fw_versions =
     (case candidate_loop live_fw_versions fw_versions {} of
        Inl e \<Rightarrow> Inl e
      | Inr candidates \<Rightarrow> Inr (candidates - fuzzy_excluded_platforms))"

definition RSG_OFFROAD :: string where
  "RSG_OFFROAD = ''CUSTOM 4Runner RSG Offroad''"

definition FW_VERSIONS :: catalog where
  "FW_VERSIONS =
     [(RSG_OFFROAD,
       [((Ecu_abs, 0x7b0, None),
           [''F152607060'' @ [NUL, NUL, NUL, NUL, NUL, NUL]]),
        ((Ecu_dsu, 0x791, None),
           [''881510701300'' @ [NUL, NUL, NUL, NUL],
            ''881510705100'' @ [NUL, NUL, NUL, NUL],
            ''881510705200'' @ [NUL, NUL, NUL, NUL]]),
        ((Ecu_eps, 0x7a1, None),
           [''8965B41051'' @ [NUL, NUL, NUL, NUL, NUL, NUL]]),
        ((Ecu_engine, 0x7e0, None),
           [CHR 0x02 # ''30721100'' @ [NUL, NUL, NUL, NUL, NUL, NUL, NUL, NUL]
              @ ''A0C01000'' @ [NUL, NUL, NUL, NUL, NUL, NUL, NUL, NUL],
            CHR 0x02 # ''30721200'' @ [NUL, NUL, NUL, NUL, NUL, NUL, NUL, NUL]
              @ ''A0C01000'' @ [NUL, NUL, NUL, NUL, NUL, NUL, NUL, NUL]]),
        ((Ecu_fwdRadar, 0x750, Some 0xf),
           [''8821F4702000'' @ [NUL, NUL, NUL, NUL],
            ''8821F4702100'' @ [NUL, NUL, NUL, NUL]]),
        ((Ecu_fwdCamera, 0x750, Some 0x6d),
           [''8646F0701100'' @ [NUL, NUL, NUL, NUL],
            ''8646F0703000'' @ [NUL, NUL, NUL, NUL]])])]"

subsection \<open>retrofitcan.py\<close>

text \<open>
  The values of a message dict, and the arguments of a function that takes any object,
  are Python integers, floats, booleans and \<^verbatim>\<open>None\<close>. Floats are idealised as reals; no
  theorem below depends on the value of one.
\<close>

datatype py_val = PyInt int | PyFloat real | PyBool bool | PyNone

type_synonym py_dict = "(string \<times> py_val) list"

text \<open>\<^verbatim>\<open>d[k]\<close>: raises KeyError for a key that is not in the dict.\<close>

definition getitem :: "py_dict \<Rightarrow> string \<Rightarrow> py_error + py_val" where
  "getitem d k = (case map_of d k of None \<Rightarrow> Inl (KeyError k) | Some v \<Rightarrow> Inr v)"

text \<open>
  The operand of \<^verbatim>\<open>&\<close>, \<^verbatim>\<open><<\<close> or \<^verbatim>\<open>>>\<close> with an integer on the other side: a bool counts as
  an integer, a float or \<^verbatim>\<open>None\<close> raises TypeError.
\<close>

fun int_operand :: "py_val \<Rightarrow> py_error + int" where
  "int_operand (PyInt i) = Inr i"
| "int_operand (PyBool b) = Inr (of_bool b)"
| "int_operand (PyFloat x) = Inl TypeError"
| "int_operand PyNone = Inl TypeError"

text \<open>Sequencing of two computations that can raise.\<close>

definition and_then :: "py_error + 'a \<Rightarrow> ('a \<Rightarrow> py_error + 'b) \<Rightarrow> py_error + 'b" where
  "and_then r f = (case r of Inl e \<Rightarrow> Inl e | Inr x \<Rightarrow> f x)"

definition toyota_checksum :: "int \<Rightarrow> int list \<Rightarrow> int \<Rightarrow> int" where
  "toyota_checksum addr dat len =
     (foldl (+) 0 dat + ((addr AND 0xFF) + drop_bit 8 addr + len)) AND 0xFF"

text \<open>
  \<^verbatim>\<open>packer.make_can_msg\<close> belongs to opendbc and is the argument \<open>packer_make_can_msg\<close>.
  The function neither annotates nor checks \<^verbatim>\<open>steer\<close> and \<^verbatim>\<open>steer_req\<close>, so both are any
  value. Line 18 is evaluated left to right: \<^verbatim>\<open>values["STEER_REQUEST"] & 1\<close> comes before the
  read of \<^verbatim>\<open>values["TOYOTA_COUNTER"]\<close>.
\<close>

definition create_toyota_steer_command ::
    "(string \<Rightarrow> nat \<Rightarrow> py_dict \<Rightarrow> py_error + 'm) \<Rightarrow> py_val \<Rightarrow> py_val \<Rightarrow> py_error + 'm" where
  "create_toyota_steer_command packer_make_can_msg steer steer_req =
     (let values = [(''STEER_REQUEST'', steer_req),
                    (''STEER_TORQUE_CMD'', steer),
                    (''SET_ME_1'', PyInt 1)]
      in
      and_then (and_then (getitem values ''STEER_REQUEST'') int_operand) (\<lambda>steer_request.
      and_then (and_then (getitem values ''TOYOTA_COUNTER'') int_operand) (\<lambda>toyota_counter.
      and_then (and_then (getitem values ''SET_ME_1'') int_operand) (\<lambda>set_me_1.
      let dat1 = (steer_request AND 1) OR (push_bit 1 toyota_counter AND 0x3F)
                   OR (push_bit 7 set_me_1 AND 1)
      in
      and_then (and_then (getitem values ''STEER_TORQUE_CMD'') int_operand) (\<lambda>cmd2.
      let dat2 = drop_bit 8 cmd2 AND 0xFF in
      and_then (and_then (getitem values ''STEER_TORQUE_CMD'') int_operand) (\<lambda>cmd3.
      let dat3 = cmd3 AND 0xFF;
          dat = [dat1, dat2, dat3];
          values = AList.update ''TOYOTA_CHECKSUM'' (PyInt (toyota_checksum 0x2E4 dat 5)) values
      in packer_make_can_msg ''STEERING_LKA'' 0 values))))))"

definition create_gas_command ::
    "(string \<Rightarrow> nat \<Rightarrow> py_dict \<Rightarrow> py_error + 'm) \<Rightarrow> real \<Rightarrow> int \<Rightarrow> py_error + 'm" where
  "create_gas_command packer_make_can_msg gas_amount idx =
     (let enable = (gas_amount > 0.001);
          values = [(''ENABLE'', PyBool enable), (''COUNTER'', PyInt (idx AND 0xF))];
          values = (if enable
                    then AList.update ''GAS_COMMAND2'' (PyFloat (gas_amount * 255))
                           (AList.update ''GAS_COMMAND'' (PyFloat (gas_amount * 255)) values)
                    else values)
      in packer_make_can_msg ''OCELOT_PEDAL_GAS_COMMAND'' 2 values)"

definition create_brake_cmd ::
    "(string \<Rightarrow> nat \<Rightarrow> py_dict \<Rightarrow> py_error + 'm) \<Rightarrow> bool \<Rightarrow> real \<Rightarrow> int \<Rightarrow> py_error + 'm" where
  "create_brake_cmd packer_make_can_msg enabled brake raw_cnt =
     (let values = [(''BRAKE_POSITION_COMMAND'', PyInt 0),
                    (''BRAKE_RELATIVE_COMMAND'', PyFloat (brake * 252)),
                    (''BRAKE_MODE'', PyBool enabled),
                    (''COUNTER'', PyInt raw_cnt)]
      in packer_make_can_msg ''OCELOT_BRAKE_COMMAND'' 2 values)"

subsection \<open>carcontroller.py\<close>

text \<open>
  The messages and parameter structs of cereal are records of the fields that
  \<^verbatim>\<open>CarController.update\<close> reads, named by the path the code reads them through. The
  functions that \<^verbatim>\<open>update\<close> calls and that belong to other modules (\<^verbatim>\<open>selfdrive.car\<close>,
  \<^verbatim>\<open>common.numpy_fast\<close>, opendbc's \<^verbatim>\<open>CANPacker\<close>) and the constant \<^verbatim>\<open>CV.MPH_TO_MS\<close> are the
  fields of the record \<open>externals\<close>; each function may raise. \<open>'m\<close> is the type of a
  CAN message.
\<close>

datatype SteerControlType = SteerControlType_torque | SteerControlType_angle

record CarControllerParams =
  STEER_DELTA_UP :: int
  STEER_DELTA_DOWN :: int

definition STEER_MAX :: int where
  "STEER_MAX = 1500"

record CarParams =
  CP_steerControlType :: SteerControlType
  CP_enableDsu :: bool
  CP_carFingerprint :: string

record CarState =
  CS_out_steeringTorque :: real
  CS_out_steeringTorqueEps :: real
  CS_out_steeringRateDeg :: real
  CS_out_steeringAngleDeg :: real
  CS_out_steeringAngleOffsetDeg :: real
  CS_out_vEgo :: real

record Actuators =
  act_steer :: real
  act_steerOutputCan :: real
  act_steeringAngleDeg :: real
  act_accel :: real
  act_gas :: real
  act_brake :: real

record CarControl =
  CC_actuators :: Actuators
  CC_latActive :: bool
  CC_enabled :: bool

record CarController =
  self_CP :: CarParams
  self_params :: CarControllerParams
  self_frame :: nat
  self_last_steer :: int
  self_last_angle :: real
  self_alert_active :: bool
  self_last_standstill :: bool
  self_standstill_req :: bool
  self_steer_rate_counter :: int
  self_gas :: real
  self_accel :: real

record 'm externals =
  apply_meas_steer_torque_limits :: "int \<Rightarrow> int \<Rightarrow> real \<Rightarrow> CarControllerParams \<Rightarrow> py_error + int"
  apply_std_steer_angle_limits :: "real \<Rightarrow> real \<Rightarrow> real \<Rightarrow> CarControllerParams \<Rightarrow> py_error + real"
  common_fault_avoidance :: "bool \<Rightarrow> bool \<Rightarrow> int \<Rightarrow> int \<Rightarrow> py_error + (int \<times> bool)"
  make_can_msg :: "nat \<Rightarrow> bytes \<Rightarrow> nat \<Rightarrow> py_error + 'm"
  clip :: "real \<Rightarrow> real \<Rightarrow> real \<Rightarrow> py_error + real"
  interp :: "real \<Rightarrow> real list \<Rightarrow> real list \<Rightarrow> py_error + real"
  packer_make_can_msg :: "string \<Rightarrow> nat \<Rightarrow> py_dict \<Rightarrow> py_error + 'm"
  MPH_TO_MS :: real

definition MAX_STEER_RATE :: real where
  "MAX_STEER_RATE = 100"

definition MAX_STEER_RATE_FRAMES :: int where
  "MAX_STEER_RATE_FRAMES = 18"

definition MAX_USER_TORQUE :: real where
  "MAX_USER_TORQUE = 500"

definition MAX_STEER_ANGLE :: real where
  "MAX_STEER_ANGLE = 94.9461"

definition MIN_ACC_SPEED :: "'m externals \<Rightarrow> real" where
  "MIN_ACC_SPEED ext = 19 * MPH_TO_MS ext"

definition PEDAL_TRANSITION :: "'m externals \<Rightarrow> real" where
  "PEDAL_TRANSITION ext = 10 * MPH_TO_MS ext"

text \<open>\<^verbatim>\<open>(addr, cars, bus, 1/freq*100, vl)\<close>; \<^verbatim>\<open>(CAR.RSG_OFFROAD)\<close> is the string itself.\<close>

definition STATIC_DSU_MSGS :: "(nat \<times> string \<times> nat \<times> nat \<times> bytes) list" where
  "STATIC_DSU_MSGS =
     [(0x128, RSG_OFFROAD, 1, 3, [CHR 0xf4, CHR 0x01, CHR 0x90, CHR 0x83, CHR 0x00, CHR 0x37]),
      (0x141, RSG_OFFROAD, 1, 2, [CHR 0x00, CHR 0x00, CHR 0x00, CHR 0x46]),
      (0x160, RSG_OFFROAD, 1, 7,
         [CHR 0x00, CHR 0x00, CHR 0x08, CHR 0x12, CHR 0x01, CHR 0x31, CHR 0x9c, CHR 0x51]),
      (0x161, RSG_OFFROAD, 1, 7,
         [CHR 0x00, CHR 0x1e, CHR 0x00, CHR 0x00, CHR 0x00, CHR 0x80, CHR 0x07]),
      (0x283, RSG_OFFROAD, 0, 3,
         [CHR 0x00, CHR 0x00, CHR 0x00, CHR 0x00, CHR 0x00, CHR 0x00, CHR 0x8c]),
      (0x344, RSG_OFFROAD, 0, 5,
         [CHR 0x00, CHR 0x00, CHR 0x01, CHR 0x00, CHR 0x00, CHR 0x00, CHR 0x00, CHR 0x50]),
      (0x365, RSG_OFFROAD, 0, 20,
         [CHR 0x00, CHR 0x00, CHR 0x00, CHR 0x80, CHR 0xfc, CHR 0x00, CHR 0x08]),
      (0x366, RSG_OFFROAD, 0, 20,
         [CHR 0x00, CHR 0x72, CHR 0x07, CHR 0xff, CHR 0x09, CHR 0xfe, CHR 0x00]),
      (0x4CB, RSG_OFFROAD, 0, 100,
         [CHR 0x0c, CHR 0x00, CHR 0x00, CHR 0x00, CHR 0x00, CHR 0x00, CHR 0x00, CHR 0x00])]"

text \<open>\<^verbatim>\<open>int(round(x))\<close>: Python rounds a half to the even neighbour.\<close>

definition py_round :: "real \<Rightarrow> int" where
  "py_round x =
     (let f = \<lfloor>x\<rfloor>; d = x - of_int f
      in if d < 1 / 2 then f else if 1 / 2 < d then f + 1 else if even f then f else f + 1)"

text \<open>\<^verbatim>\<open>a in b\<close> for two strings: \<open>a\<close> occurs in \<open>b\<close>.\<close>

definition str_in :: "string \<Rightarrow> string \<Rightarrow> bool" where
  "str_in a b = list_ex (\<lambda>i. take (length a) (drop i b) = a) [0..<Suc (length b)]"

text \<open>
  Lines 67 to 81, the steer angle: the new object state, and the new values of
  \<^verbatim>\<open>apply_steer\<close> and \<^verbatim>\<open>apply_steer_req\<close> unless a call raised.
\<close>

definition steer_angle ::
    "'m externals \<Rightarrow> CarController \<Rightarrow> CarControl \<Rightarrow> CarState \<Rightarrow> bool \<Rightarrow> int \<Rightarrow> bool
       \<Rightarrow> CarController \<times> (py_error + (int \<times> bool))" where
  "steer_angle ext self CC CS lat_active apply_steer apply_steer_req =
     (if CP_steerControlType (self_CP self) = SteerControlType_angle then
        (if self_frame self mod 2 = 0 then
           (let apply_angle =
                  act_steeringAngleDeg (CC_actuators CC) + CS_out_steeringAngleOffsetDeg CS
            in case apply_std_steer_angle_limits ext apply_angle (self_last_angle self)
                      (CS_out_vEgo CS) (self_params self) of
                 Inl e \<Rightarrow> (self, Inl e)
               | Inr apply_angle \<Rightarrow>
                   (let apply_angle =
                          (if \<not> lat_active
                           then CS_out_steeringAngleDeg CS + CS_out_steeringAngleOffsetDeg CS
                           else apply_angle)
                    in case clip ext apply_angle (- MAX_STEER_ANGLE) MAX_STEER_ANGLE of
                         Inl e \<Rightarrow> (self, Inl e)
                       | Inr a \<Rightarrow> (self\<lparr>self_last_angle := a\<rparr>, Inr (0, False))))
         else (self, Inr (0, False)))
      else (self, Inr (apply_steer, apply_steer_req)))"

text \<open>Lines 104 to 106, the static messages.\<close>

fun static_msgs ::
    "'m externals \<Rightarrow> CarController \<Rightarrow> (nat \<times> string \<times> nat \<times> nat \<times> bytes) list \<Rightarrow> 'm list
       \<Rightarrow> py_error + 'm list" where
  "static_msgs ext self [] can_sends = Inr can_sends"
| "static_msgs ext self ((addr, cars, bus, fr_step, vl) # rest) can_sends =
     (if self_frame self mod fr_step = 0 \<and> CP_enableDsu (self_CP self)
         \<and> str_in (CP_carFingerprint (self_CP self)) cars
      then (case make_can_msg ext addr vl bus of
              Inl e \<Rightarrow> Inl e
            | Inr m \<Rightarrow> static_msgs ext self rest (can_sends @ [m]))
      else static_msgs ext self rest can_sends)"

text \<open>Lines 96 to 101, the gas and brake commands of every second frame.\<close>

definition gas_and_brake ::
    "'m externals \<Rightarrow> CarController \<Rightarrow> CarControl \<Rightarrow> real \<Rightarrow> real \<Rightarrow> 'm list
       \<Rightarrow> CarController \<times> (py_error + 'm list)" where
  "gas_and_brake ext self CC interceptor_gas_cmd apply_brake can_sends =
     (if self_frame self mod 2 = 0 then
        (case create_gas_command (packer_make_can_msg ext) interceptor_gas_cmd
                (int (self_frame self div 2)) of
           Inl e \<Rightarrow> (self, Inl e)
         | Inr gas_msg \<Rightarrow>
             (let self = self\<lparr>self_gas := interceptor_gas_cmd\<rparr> in
              case create_brake_cmd (packer_make_can_msg ext) (CC_enabled CC) apply_brake
                     (int (self_frame self div 2)) of
                Inl e \<Rightarrow> (self, Inl e)
              | Inr brake_msg \<Rightarrow> (self, Inr (can_sends @ [gas_msg, brake_msg]))))
      else (self, Inr can_sends))"

text \<open>Lines 90 to 116, the frame after the steer command.\<close>

definition update_tail ::
    "'m externals \<Rightarrow> CarController \<Rightarrow> CarControl \<Rightarrow> CarState \<Rightarrow> int \<Rightarrow> real \<Rightarrow> 'm list
       \<Rightarrow> CarController \<times> (py_error + (Actuators \<times> 'm list))" where
  "update_tail ext self CC CS apply_steer apply_brake can_sends =
     (let actuators = CC_actuators CC;
          MAX_INTERCEPTOR_GAS = 0.5
      in
      case interp ext (CS_out_vEgo CS)
             [0.0, MIN_ACC_SPEED ext, MIN_ACC_SPEED ext + PEDAL_TRANSITION ext] [0.4, 0.5, 0.0] of
        Inl e \<Rightarrow> (self, Inl e)
      | Inr PEDAL_SCALE \<Rightarrow>
      case interp ext (CS_out_vEgo CS)
             [0.0, 2.3, MIN_ACC_SPEED ext + PEDAL_TRANSITION ext] [- 0.4, 0.0, 0.2] of
        Inl e \<Rightarrow> (self, Inl e)
      | Inr pedal_offset \<Rightarrow>
      let pedal_command = PEDAL_SCALE * (act_accel actuators + pedal_offset) in
      case clip ext pedal_command 0 MAX_INTERCEPTOR_GAS of
        Inl e \<Rightarrow> (self, Inl e)
      | Inr interceptor_gas_cmd \<Rightarrow>
      case gas_and_brake ext self CC interceptor_gas_cmd apply_brake can_sends of
        (self, Inl e) \<Rightarrow> (self, Inl e)
      | (self, Inr can_sends) \<Rightarrow>
      case static_msgs ext self STATIC_DSU_MSGS can_sends of
        Inl e \<Rightarrow> (self, Inl e)
      | Inr can_sends \<Rightarrow>
      let new_actuators = actuators
            \<lparr>act_steer := of_int apply_steer / of_int STEER_MAX,
             act_steerOutputCan := of_int apply_steer,
             act_steeringAngleDeg := self_last_angle self,
             act_accel := self_accel self,
             act_gas := self_gas self\<rparr>;
          self = self\<lparr>self_frame := self_frame self + 1\<rparr>
      in (self, Inr (new_actuators, can_sends)))"

text \<open>
  \<^verbatim>\<open>CarController.update\<close>: the object state after the call, and what the call returns
  unless it raised. \<^verbatim>\<open>hud_control\<close> and \<^verbatim>\<open>pcm_cancel_cmd\<close> are read and never used. The
  torque that reaches the steer command is the integer \<^verbatim>\<open>apply_steer\<close>, the request the
  bool \<^verbatim>\<open>apply_steer_req\<close>.
\<close>

definition update ::
    "'m externals \<Rightarrow> CarController \<Rightarrow> CarControl \<Rightarrow> CarState \<Rightarrow> int
       \<Rightarrow> CarController \<times> (py_error + (Actuators \<times> 'm list))" where
  "update ext self CC CS now_nanos =
     (let actuators = CC_actuators CC;
          lat_active = (CC_latActive CC \<and> \<bar>CS_out_steeringTorque CS\<bar> < MAX_USER_TORQUE);
          can_sends = [];
          new_steer = py_round (act_steer actuators * of_int STEER_MAX)
      in
      case apply_meas_steer_torque_limits ext new_steer (self_last_steer self)
             (CS_out_steeringTorqueEps CS) (self_params self) of
        Inl e \<Rightarrow> (self, Inl e)
      | Inr apply_steer \<Rightarrow>
      case common_fault_avoidance ext (\<bar>CS_out_steeringRateDeg CS\<bar> \<ge> MAX_STEER_RATE)
             (CC_latActive CC) (self_steer_rate_counter self) MAX_STEER_RATE_FRAMES of
        Inl e \<Rightarrow> (self, Inl e)
      | Inr (steer_rate_counter, apply_steer_req) \<Rightarrow>
      let self = self\<lparr>self_steer_rate_counter := steer_rate_counter\<rparr>;
          apply_steer = (if \<not> CC_latActive CC then 0 else apply_steer);
          apply_brake = act_brake actuators * 7;
          apply_brake = (if \<not> CC_enabled CC then 0 else apply_brake)
      in
      case steer_angle ext self CC CS lat_active apply_steer apply_steer_req of
        (self, Inl e) \<Rightarrow> (self, Inl e)
      | (self, Inr (apply_steer, apply_steer_req)) \<Rightarrow>
      let self = self\<lparr>self_last_steer := apply_steer\<rparr> in
      case create_toyota_steer_command (packer_make_can_msg ext)
             (PyInt apply_steer) (PyBool apply_steer_req) of
        Inl e \<Rightarrow> (self, Inl e)
      | Inr steer_msg \<Rightarrow>
          update_tail ext self CC CS apply_steer apply_brake (can_sends @ [steer_msg]))"

section \<open>Derived notions\<close>

text \<open>
  The notions below are not in the source: they describe what one firmware version
  contributes to the codes, and are proved equal to what the loop body computes.
\<close>

fun total_width :: "item list \<Rightarrow> nat" where
  "total_width [] = 0"
| "total_width (Item cs n captured # its) = n + total_width its"

definition alnum :: "bytes \<Rightarrow> bool" where
  "alnum s = list_all (in_charset AZ09) s"

definition chunk_code :: "bytes \<Rightarrow> (bytes \<times> bytes) option" where
  "chunk_code c =
     (if \<not> alnum c then None
      else if length c = 8 then
        Some (take 2 (drop 1 c) @ ''-'' @ take 2 (drop 3 c), drop 5 c)
      else if length c = 10 then
        Some (take 5 c @ ''-'' @ take 2 (drop 5 c) @ ''-'' @ take 1 (drop 7 c), drop 8 c)
      else if length c = 12 then
        Some (take 5 c @ ''-'' @ take 2 (drop 5 c) @ ''-'' @ take 2 (drop 7 c), drop 9 c)
      else None)"

definition has_length_code :: "bytes \<Rightarrow> bool" where
  "has_length_code fw = (fw \<noteq> [] \<and> 1 \<le> (of_char (hd fw) :: nat) \<and> (of_char (hd fw) :: nat) \<le> 3)"

definition chunk_count :: "bytes \<Rightarrow> nat" where
  "chunk_count fw = (if has_length_code fw then of_char (hd fw) else 1)"

definition payload_of :: "bytes \<Rightarrow> bytes" where
  "payload_of fw = (if has_length_code fw then tl fw else fw)"

definition first_chunk_of :: "bytes \<Rightarrow> bytes option" where
  "first_chunk_of fw =
     (if chunk_count fw * 16 = length (payload_of fw) then Some (strip (take 16 (payload_of fw)))
      else None)"

definition contribution :: "bytes \<Rightarrow> (bytes \<times> bytes) option" where
  "contribution fw = (case first_chunk_of fw of None \<Rightarrow> None | Some c \<Rightarrow> chunk_code c)"

definition add_contribution :: "codes \<Rightarrow> bytes \<Rightarrow> codes" where
  "add_contribution codes fw =
     (case contribution fw of None \<Rightarrow> codes | Some (k, v) \<Rightarrow> codes_add codes k v)"

text \<open>The sub-versions of a key, the well-formed dicts, and what a list contributes to a key.\<close>

definition subs :: "codes \<Rightarrow> bytes \<Rightarrow> bytes set" where
  "subs codes k = (case map_of codes k of None \<Rightarrow> {} | Some s \<Rightarrow> s)"

definition proper :: "codes \<Rightarrow> bool" where
  "proper codes = (distinct (map fst codes) \<and> (\<forall>(k, s) \<in> set codes. s \<noteq> {}))"

definition contributed :: "bytes list \<Rightarrow> bytes \<Rightarrow> bytes set" where
  "contributed fws k = {v. \<exists>fw \<in> set fws. contribution fw = Some (k, v)}"

text \<open>The platform codes of a list of firmware versions, and the test of line 148.\<close>

definition keys_of :: "bytes list \<Rightarrow> bytes set" where
  "keys_of fws = {k. contributed fws k \<noteq> {}}"

definition ecu_passes :: "live_fw \<Rightarrow> ecu_key \<Rightarrow> bytes list \<Rightarrow> bool" where
  "ecu_passes live ecu expected_versions =
     (keys_of (live_get live (snd ecu)) \<inter> keys_of expected_versions \<noteq> {})"

definition accepted :: "live_fw \<Rightarrow> fingerprint \<Rightarrow> bool" where
  "accepted live fws =
     (case ecu_loop live fws {} of Inl e \<Rightarrow> False | Inr found \<Rightarrow> valid_expected_ecus fws \<subseteq> found)"

section \<open>Properties of get_platform_codes\<close>

subsection \<open>The searches at the lengths the code asks for\<close>

lemma match_here_short: "length s < total_width its \<Longrightarrow> match_here its s = None"
proof (induction its arbitrary: s)
  case Nil
  then show ?case by simp
next
  case (Cons it its)
  obtain cs n cap where it: "it = Item cs n cap" by (cases it)
  show ?case
  proof (cases "n \<le> length s")
    case True
    with Cons.prems it have "length (drop n s) < total_width its" by simp
    then have "match_here its (drop n s) = None" by (rule Cons.IH)
    then show ?thesis by (simp add: it)
  next
    case False
    then show ?thesis by (simp add: it)
  qed
qed

lemma search_from_short: "length s < total_width its \<Longrightarrow> search_from its s = None"
  by (induction s) (simp_all add: match_here_short)

lemma search_from_exact: "length s = total_width its \<Longrightarrow> search_from its s = match_here its s"
proof (cases s)
  case Nil
  then show ?thesis by simp
next
  case (Cons c s')
  assume "length s = total_width its"
  with Cons have "search_from its s' = None" by (simp add: search_from_short)
  with Cons show ?thesis by (simp split: option.split)
qed

lemma alnum_split: "alnum s = (alnum (take n s) \<and> alnum (drop n s))"
proof -
  have "alnum (take n s @ drop n s) = (alnum (take n s) \<and> alnum (drop n s))"
    unfolding alnum_def by (rule list_all_append)
  then show ?thesis by simp
qed

lemma search_SHORT:
  assumes "length c = 8"
  shows "re_search SHORT_FW_PATTERN c =
    (if alnum c then Some (c, [take 2 (drop 1 c), take 2 (drop 3 c), drop 5 c]) else None)"
proof -
  have "re_search SHORT_FW_PATTERN c = match_here (items SHORT_FW_PATTERN) c"
    using assms by (simp add: re_search_def SHORT_FW_PATTERN_def search_from_exact)
  moreover have "alnum c = (alnum (take 1 c) \<and> alnum (take 2 (drop 1 c)) \<and> alnum (take 2 (drop 3 c)) \<and> alnum (drop 5 c))"
    using alnum_split[of c 1] alnum_split[of "drop 1 c" 2] alnum_split[of "drop 3 c" 2] by simp
  moreover have "take 1 c @ take 2 (drop 1 c) @ take 2 (drop 3 c) @ drop 5 c = c"
    using append_take_drop_id[of 1 c] append_take_drop_id[of 2 "drop 1 c"]
      append_take_drop_id[of 2 "drop 3 c"] by simp
  ultimately show ?thesis
    using assms by (simp add: SHORT_FW_PATTERN_def alnum_def)
qed

lemma search_MEDIUM:
  assumes "length c = 10"
  shows "re_search MEDIUM_FW_PATTERN c =
    (if alnum c then Some (c, [take 5 c, take 2 (drop 5 c), take 1 (drop 7 c), drop 8 c]) else None)"
proof -
  have "re_search MEDIUM_FW_PATTERN c = match_here (items MEDIUM_FW_PATTERN) c"
    using assms by (simp add: re_search_def MEDIUM_FW_PATTERN_def search_from_exact)
  moreover have "alnum c = (alnum (take 5 c) \<and> alnum (take 2 (drop 5 c)) \<and> alnum (take 1 (drop 7 c)) \<and> alnum (drop 8 c))"
    using alnum_split[of c 5] alnum_split[of "drop 5 c" 2] alnum_split[of "drop 7 c" 1] by simp
  moreover have "take 5 c @ take 2 (drop 5 c) @ take 1 (drop 7 c) @ drop 8 c = c"
    using append_take_drop_id[of 5 c] append_take_drop_id[of 2 "drop 5 c"]
      append_take_drop_id[of 1 "drop 7 c"] by simp
  ultimately show ?thesis
    using assms by (simp add: MEDIUM_FW_PATTERN_def alnum_def)
qed

lemma search_LONG:
  assumes "length c = 12"
  shows "re_search LONG_FW_PATTERN c =
    (if alnum c then Some (c, [take 5 c, take 2 (drop 5 c), take 2 (drop 7 c), drop 9 c]) else None)"
proof -
  have "re_search LONG_FW_PATTERN c = match_here (items LONG_FW_PATTERN) c"
    using assms by (simp add: re_search_def LONG_FW_PATTERN_def search_from_exact)
  moreover have "alnum c = (alnum (take 5 c) \<and> alnum (take 2 (drop 5 c)) \<and> alnum (take 2 (drop 7 c)) \<and> alnum (drop 9 c))"
    using alnum_split[of c 5] alnum_split[of "drop 5 c" 2] alnum_split[of "drop 7 c" 2] by simp
  moreover have "take 5 c @ take 2 (drop 5 c) @ take 2 (drop 7 c) @ drop 9 c = c"
    using append_take_drop_id[of 5 c] append_take_drop_id[of 2 "drop 5 c"]
      append_take_drop_id[of 2 "drop 7 c"] by simp
  ultimately show ?thesis
    using assms by (simp add: LONG_FW_PATTERN_def alnum_def)
qed

lemma classify_eq:
  "classify codes c = Inr (case chunk_code c of None \<Rightarrow> codes | Some (k, v) \<Rightarrow> codes_add codes k v)"
  by (simp add: classify_def chunk_code_def search_SHORT search_MEDIUM search_LONG)

lemma search_FW_LEN_CODE:
  "re_search FW_LEN_CODE fw = (if has_length_code fw then Some ([hd fw], []) else None)"
  by (cases fw) (simp_all add: re_search_def FW_LEN_CODE_def has_length_code_def in_charset_def)

lemma parse_length_code_eq: "parse_length_code fw = Inr (chunk_count fw, payload_of fw)"
  by (simp add: parse_length_code_def search_FW_LEN_CODE chunk_count_def payload_of_def index_def
      drop_Suc)

lemma chunk_count_pos: "0 < chunk_count fw"
  by (simp add: chunk_count_def has_length_code_def)

lemma index_split_chunks:
  "0 < n \<Longrightarrow> index (split_chunks n fw) 0 = Inr (strip (take 16 fw))"
  by (simp add: index_def split_chunks_def FW_CHUNK_LEN_def nth_append upt_conv_Cons)

lemma fw_step_eq: "fw_step codes fw = Inr (add_contribution codes fw)"
  by (simp add: fw_step_def parse_length_code_eq FW_CHUNK_LEN_def index_split_chunks
      chunk_count_pos classify_eq add_contribution_def contribution_def first_chunk_of_def)

lemma fw_loop_eq: "fw_loop codes fws = Inr (foldl add_contribution codes fws)"
  by (induction fws arbitrary: codes) (simp_all add: fw_step_eq)

lemma get_platform_codes_eq: "get_platform_codes fws = Inr (foldl add_contribution [] fws)"
  by (simp add: get_platform_codes_def fw_loop_eq)


lemma map_of_codes_add:
  "map_of (codes_add codes k v) = (map_of codes)(k \<mapsto> insert v (subs codes k))"
  by (simp add: codes_add_def subs_def update_conv')

lemma subs_codes_add:
  "subs (codes_add codes k v) k' = (if k' = k then insert v (subs codes k) else subs codes k')"
  by (simp add: subs_def map_of_codes_add)

lemma subs_add_contribution:
  "subs (add_contribution codes fw) k = subs codes k \<union> {v. contribution fw = Some (k, v)}"
  by (auto simp: add_contribution_def subs_codes_add split: option.splits)

lemma subs_foldl:
  "subs (foldl add_contribution codes fws) k = subs codes k \<union> contributed fws k"
proof (induction fws arbitrary: codes)
  case Nil
  then show ?case by (simp add: contributed_def)
next
  case (Cons fw fws)
  have "contributed (fw # fws) k = {v. contribution fw = Some (k, v)} \<union> contributed fws k"
    by (auto simp: contributed_def)
  then show ?case by (simp add: Cons.IH subs_add_contribution Un_assoc)
qed

lemma set_update_cases:
  "p \<in> set (AList.update k v al) \<Longrightarrow> p = (k, v) \<or> p \<in> set al"
  by (induction al) (auto split: if_splits)

lemma proper_codes_add:
  assumes "proper codes"
  shows "proper (codes_add codes k v)"
proof -
  have "distinct (map fst (codes_add codes k v))"
    using assms by (simp add: proper_def codes_add_def distinct_update)
  moreover have "s \<noteq> {}" if "(a, s) \<in> set (codes_add codes k v)" for a s
  proof -
    from that have "(a, s) = (k, insert v (subs codes k)) \<or> (a, s) \<in> set codes"
      unfolding codes_add_def subs_def by (rule set_update_cases)
    with assms show ?thesis by (auto simp: proper_def)
  qed
  ultimately show ?thesis by (auto simp: proper_def)
qed

lemma proper_add_contribution: "proper codes \<Longrightarrow> proper (add_contribution codes fw)"
  by (simp add: add_contribution_def proper_codes_add split: option.splits)

lemma proper_foldl: "proper codes \<Longrightarrow> proper (foldl add_contribution codes fws)"
  by (induction fws arbitrary: codes) (simp_all add: proper_add_contribution)

lemma proper_map_of:
  assumes "proper codes"
  shows "map_of codes k = (if subs codes k = {} then None else Some (subs codes k))"
proof (cases "map_of codes k")
  case None
  then show ?thesis by (simp add: subs_def)
next
  case (Some s)
  then have "(k, s) \<in> set codes" by (rule map_of_SomeD)
  with assms have "s \<noteq> {}" by (auto simp: proper_def)
  with Some show ?thesis by (simp add: subs_def)
qed

lemma contributed_cong: "set fws = set fws' \<Longrightarrow> contributed fws = contributed fws'"
  by (simp add: contributed_def fun_eq_iff)

lemma map_of_platform_codes:
  "map_of (foldl add_contribution [] fws) k =
     (if contributed fws k = {} then None else Some (contributed fws k))"
proof -
  have "proper (foldl add_contribution [] fws)"
    by (rule proper_foldl) (simp add: proper_def)
  moreover have "subs (foldl add_contribution [] fws) k = contributed fws k"
    by (simp add: subs_foldl) (simp add: subs_def)
  ultimately show ?thesis
    using proper_map_of[of "foldl add_contribution [] fws" k] by simp
qed

subsection \<open>The 10-byte template\<close>

text \<open>
  Claim C5. A firmware version of valid length whose stripped first chunk is the 10 bytes
  \<^verbatim>\<open>F152607060\<close> is classified under the 10-byte template as part \<^verbatim>\<open>F1526\<close>, platform
  \<^verbatim>\<open>07\<close>, major version \<^verbatim>\<open>0\<close> and sub-version \<^verbatim>\<open>60\<close>: \<^verbatim>\<open>get_platform_codes\<close> of that one
  version is the dict with the single key \<^verbatim>\<open>F1526-07-0\<close>, whose set is \<^verbatim>\<open>{60}\<close>.
\<close>

theorem medium_template_F152607060:
  assumes "parse_length_code fw = Inr (length_code, payload)"
      and "length_code * FW_CHUNK_LEN = length payload"
      and "index (split_chunks length_code payload) 0 = Inr ''F152607060''"
  shows "get_platform_codes [fw] = Inr [(''F1526-07-0'', {''60''})]"
proof -
  have "fw_step [] fw = classify [] ''F152607060''"
    using assms by (simp add: fw_step_def)
  also have "\<dots> = Inr [(''F1526-07-0'', {''60''})]"
    by (simp add: classify_def re_search_def MEDIUM_FW_PATTERN_def AZ09_def in_charset_def
        codes_add_def)
  finally show ?thesis by (simp add: get_platform_codes_def)
qed

theorem medium_template_F152607060_witness:
  "parse_length_code (''F152607060'' @ [NUL, NUL, NUL, NUL, NUL, NUL])
     = Inr (1, ''F152607060'' @ [NUL, NUL, NUL, NUL, NUL, NUL])
   \<and> 1 * FW_CHUNK_LEN = length (''F152607060'' @ [NUL, NUL, NUL, NUL, NUL, NUL])
   \<and> index (split_chunks 1 (''F152607060'' @ [NUL, NUL, NUL, NUL, NUL, NUL])) 0 = Inr ''F152607060''
   \<and> get_platform_codes [''F152607060'' @ [NUL, NUL, NUL, NUL, NUL, NUL]]
       = Inr [(''F1526-07-0'', {''60''})]"
proof -
  have a: "parse_length_code (''F152607060'' @ [NUL, NUL, NUL, NUL, NUL, NUL])
     = Inr (1, ''F152607060'' @ [NUL, NUL, NUL, NUL, NUL, NUL])"
    by (simp add: parse_length_code_def re_search_def FW_LEN_CODE_def in_charset_def)
  have b: "1 * FW_CHUNK_LEN = length (''F152607060'' @ [NUL, NUL, NUL, NUL, NUL, NUL])"
    by (simp add: FW_CHUNK_LEN_def)
  have c: "index (split_chunks 1 (''F152607060'' @ [NUL, NUL, NUL, NUL, NUL, NUL])) 0 = Inr ''F152607060''"
    by (simp add: index_def split_chunks_def FW_CHUNK_LEN_def strip_def strip_chars_def)
  from a b c medium_template_F152607060[OF a b c] show ?thesis by blast
qed

subsection \<open>The 8-byte template\<close>

text \<open>
  Claim C6, as amended. For a stripped first chunk of exactly 8 bytes the extraction
  succeeds if and only if all 8 bytes are in \<^verbatim>\<open>[A-Z0-9]\<close>, the first byte included, which
  the pattern matches and does not capture. On success the chunk contributes the platform
  code made of bytes 1 to 2 and bytes 3 to 4, joined by \<^verbatim>\<open>-\<close> and without a part number,
  with the sub-version of bytes 5 to 7; otherwise the codes stay as they are, and nothing
  is raised in either case.
\<close>

theorem short_template_extraction:
  assumes "length first_chunk = 8"
  shows "classify codes first_chunk =
           Inr (if list_all (in_charset AZ09) first_chunk
                then codes_add codes
                       (take 2 (drop 1 first_chunk) @ ''-'' @ take 2 (drop 3 first_chunk))
                       (drop 5 first_chunk)
                else codes)"
  using assms by (simp add: classify_eq chunk_code_def alnum_def)

theorem short_template_extraction_witness:
  "length ''A1234567'' = 8 \<and> classify [] ''A1234567'' = Inr [(''12-34'', {''567''})]"
  using short_template_extraction[of "''A1234567''" "[]"]
  by (simp add: in_charset_def AZ09_def codes_add_def)

text \<open>
  Claim C6 as stated, with the first byte left out of the check, fails: the platform,
  major version and sub-version of \<^verbatim>\<open>-1234567\<close> are all in \<^verbatim>\<open>[A-Z0-9]\<close>, and the chunk
  contributes nothing.
\<close>

theorem short_template_first_byte_counterexample:
  "length ''-1234567'' = 8
   \<and> list_all (in_charset AZ09) (drop 1 ''-1234567'')
   \<and> classify [] ''-1234567'' = Inr []
   \<and> get_platform_codes [''-1234567'' @ [NUL, NUL, NUL, NUL, NUL, NUL, NUL, NUL]] = Inr []"
  by (simp add: get_platform_codes_def fw_step_def parse_length_code_def re_search_def
      FW_LEN_CODE_def in_charset_def FW_CHUNK_LEN_def split_chunks_def index_def strip_def
      strip_chars_def classify_def SHORT_FW_PATTERN_def AZ09_def)

subsection \<open>The length code\<close>

text \<open>
  Claim C7. If the first byte of a firmware version is 1, 2 or 3, the chunk count is
  that byte and the payload is the rest; otherwise the chunk count is 1 and the payload
  is the whole version. When the length of the payload is not 16 times the chunk count,
  the version leaves the codes as they are and nothing is raised.
\<close>

theorem length_code_and_payload:
  "parse_length_code fw =
     Inr (if fw \<noteq> [] \<and> 1 \<le> (of_char (hd fw) :: nat) \<and> (of_char (hd fw) :: nat) \<le> 3
          then (of_char (hd fw), tl fw) else (1, fw))
   \<and> (\<forall>length_code payload codes.
         parse_length_code fw = Inr (length_code, payload)
         \<longrightarrow> length_code * 16 \<noteq> length payload
         \<longrightarrow> fw_step codes fw = Inr codes)"
proof -
  have "parse_length_code fw =
     Inr (if fw \<noteq> [] \<and> 1 \<le> (of_char (hd fw) :: nat) \<and> (of_char (hd fw) :: nat) \<le> 3
          then (of_char (hd fw), tl fw) else (1, fw))"
    by (simp add: parse_length_code_eq chunk_count_def payload_of_def has_length_code_def)
  moreover have "fw_step codes fw = Inr codes"
    if "parse_length_code fw = Inr (n, p)" "n * 16 \<noteq> length p" for n p codes
    using that by (simp add: fw_step_def FW_CHUNK_LEN_def)
  ultimately show ?thesis by blast
qed

theorem length_code_and_payload_witness:
  "parse_length_code [CHR 0x02, CHR ''A''] = Inr (2, ''A'')
   \<and> 2 * 16 \<noteq> length ''A''
   \<and> fw_step [] [CHR 0x02, CHR ''A''] = Inr []"
proof -
  have a: "parse_length_code [CHR 0x02, CHR ''A''] = Inr (2, ''A'')"
    by (simp add: parse_length_code_def re_search_def FW_LEN_CODE_def in_charset_def index_def)
  have b: "(2::nat) * 16 \<noteq> length ''A''" by simp
  from length_code_and_payload[of "[CHR 0x02, CHR ''A'']"] a b
  have "fw_step [] [CHR 0x02, CHR ''A''] = Inr []" by blast
  with a b show ?thesis by blast
qed


subsection \<open>Only the first chunk counts\<close>

lemma add_contribution_valid:
  assumes "parse_length_code fw = Inr (length_code, payload)"
      and "length_code * FW_CHUNK_LEN = length payload"
  shows "first_chunk_of fw = Some (strip (take FW_CHUNK_LEN payload))"
  using assms by (simp add: parse_length_code_eq first_chunk_of_def FW_CHUNK_LEN_def)

lemma foldl_add_contribution_cong:
  assumes "first_chunk_of fw1 = first_chunk_of fw2"
  shows "foldl add_contribution codes (pre @ fw1 # post)
           = foldl add_contribution codes (pre @ fw2 # post)"
  using assms by (simp add: add_contribution_def contribution_def)

text \<open>
  Claim C4. Two firmware versions of the same, valid length that agree on the length
  code (if any) and on the first 16 bytes of the payload give the same platform codes
  and sub-versions, whatever their later chunks are and wherever they stand in the list.
\<close>

theorem later_chunks_ignored:
  assumes "parse_length_code fw1 = Inr (length_code1, payload1)"
      and "parse_length_code fw2 = Inr (length_code2, payload2)"
      and "length fw1 = length fw2"
      and "length_code1 * FW_CHUNK_LEN = length payload1"
      and "length_code2 * FW_CHUNK_LEN = length payload2"
      and "re_search FW_LEN_CODE fw1 = re_search FW_LEN_CODE fw2"
      and "take FW_CHUNK_LEN payload1 = take FW_CHUNK_LEN payload2"
  shows "get_platform_codes (pre @ fw1 # post) = get_platform_codes (pre @ fw2 # post)"
proof -
  have "first_chunk_of fw1 = first_chunk_of fw2"
    using assms(1,2,4,5,7) by (simp add: add_contribution_valid)
  then have "foldl add_contribution [] (pre @ fw1 # post)
               = foldl add_contribution [] (pre @ fw2 # post)"
    by (rule foldl_add_contribution_cong)
  then show ?thesis by (simp only: get_platform_codes_eq)
qed

theorem later_chunks_ignored_witness:
  "CHR 0x02 # ''30721100'' @ [NUL, NUL, NUL, NUL, NUL, NUL, NUL, NUL]
              @ ''A0C01000'' @ [NUL, NUL, NUL, NUL, NUL, NUL, NUL, NUL]
    \<noteq> CHR 0x02 # ''30721100'' @ [NUL, NUL, NUL, NUL, NUL, NUL, NUL, NUL]
              @ ''B0C02000'' @ [NUL, NUL, NUL, NUL, NUL, NUL, NUL, NUL]
   \<and> get_platform_codes
        [CHR 0x02 # ''30721100'' @ [NUL, NUL, NUL, NUL, NUL, NUL, NUL, NUL]
              @ ''A0C01000'' @ [NUL, NUL, NUL, NUL, NUL, NUL, NUL, NUL]]
     = get_platform_codes
        [CHR 0x02 # ''30721100'' @ [NUL, NUL, NUL, NUL, NUL, NUL, NUL, NUL]
              @ ''B0C02000'' @ [NUL, NUL, NUL, NUL, NUL, NUL, NUL, NUL]]"
proof -
  let ?c1 = "''30721100'' @ [NUL, NUL, NUL, NUL, NUL, NUL, NUL, NUL]"
  let ?p1 = "?c1 @ ''A0C01000'' @ [NUL, NUL, NUL, NUL, NUL, NUL, NUL, NUL]"
  let ?p2 = "?c1 @ ''B0C02000'' @ [NUL, NUL, NUL, NUL, NUL, NUL, NUL, NUL]"
  have a: "parse_length_code (CHR 0x02 # ?p1) = Inr (2, ?p1)"
    by (simp add: parse_length_code_def re_search_def FW_LEN_CODE_def in_charset_def index_def)
  have b: "parse_length_code (CHR 0x02 # ?p2) = Inr (2, ?p2)"
    by (simp add: parse_length_code_def re_search_def FW_LEN_CODE_def in_charset_def index_def)
  have c: "length (CHR 0x02 # ?p1) = length (CHR 0x02 # ?p2)" by simp
  have d: "2 * FW_CHUNK_LEN = length ?p1" by (simp add: FW_CHUNK_LEN_def)
  have e: "2 * FW_CHUNK_LEN = length ?p2" by (simp add: FW_CHUNK_LEN_def)
  have f: "re_search FW_LEN_CODE (CHR 0x02 # ?p1) = re_search FW_LEN_CODE (CHR 0x02 # ?p2)"
    by (simp add: re_search_def FW_LEN_CODE_def in_charset_def)
  have g: "take FW_CHUNK_LEN ?p1 = take FW_CHUNK_LEN ?p2" by (simp add: FW_CHUNK_LEN_def)
  have h: "CHR 0x02 # ?p1 \<noteq> CHR 0x02 # ?p2" by simp
  from later_chunks_ignored[OF a b c d e f g, of "[]" "[]"] h show ?thesis by simp
qed

subsection \<open>Totality\<close>

lemma proper_platform_codes: "proper (foldl add_contribution [] fws)"
  by (rule proper_foldl) (simp add: proper_def)

text \<open>
  Claim C8. \<^verbatim>\<open>get_platform_codes\<close> returns a dict for every list of byte strings and raises
  nothing: the chunk count is at least 1, so the first chunk can be indexed; and a
  version whose stripped first chunk is shorter than 8 bytes contributes nothing.
\<close>

theorem get_platform_codes_total:
  "(\<exists>codes. get_platform_codes fw_versions = Inr codes)
   \<and> (\<forall>length_code payload.
         parse_length_code fw = Inr (length_code, payload)
         \<longrightarrow> 1 \<le> length_code
             \<and> (\<exists>first_chunk. index (split_chunks length_code payload) 0 = Inr first_chunk))
   \<and> (\<forall>length_code payload first_chunk codes.
         parse_length_code fw = Inr (length_code, payload)
         \<longrightarrow> length_code * FW_CHUNK_LEN = length payload
         \<longrightarrow> index (split_chunks length_code payload) 0 = Inr first_chunk
         \<longrightarrow> length first_chunk < 8
         \<longrightarrow> fw_step codes fw = Inr codes \<and> get_platform_codes [fw] = Inr [])"
proof -
  have 1: "\<exists>codes. get_platform_codes fw_versions = Inr codes"
    by (simp add: get_platform_codes_eq)
  have 2: "1 \<le> n \<and> (\<exists>c. index (split_chunks n p) 0 = Inr c)"
    if "parse_length_code fw = Inr (n, p)" for n p
  proof -
    from that have "n = chunk_count fw" by (simp add: parse_length_code_eq)
    then have "0 < n" by (simp add: chunk_count_pos)
    then show ?thesis by (simp add: index_split_chunks)
  qed
  have 3: "fw_step codes fw = Inr codes \<and> get_platform_codes [fw] = Inr []"
    if "parse_length_code fw = Inr (n, p)" "n * FW_CHUNK_LEN = length p"
       "index (split_chunks n p) 0 = Inr c" "length c < 8" for n p c codes
  proof -
    from that(4) have "classify cs c = Inr cs" for cs
      by (simp add: classify_def)
    with that(1,2,3) have "fw_step cs fw = Inr cs" for cs
      by (simp add: fw_step_def)
    then show ?thesis by (simp add: get_platform_codes_def)
  qed
  from 1 2 3 show ?thesis by blast
qed

theorem get_platform_codes_total_witness:
  "parse_length_code (''ABC'' @ replicate 13 NUL) = Inr (1, ''ABC'' @ replicate 13 NUL)
   \<and> 1 * FW_CHUNK_LEN = length (''ABC'' @ replicate 13 NUL)
   \<and> index (split_chunks 1 (''ABC'' @ replicate 13 NUL)) 0 = Inr ''ABC''
   \<and> length ''ABC'' < 8
   \<and> get_platform_codes [''ABC'' @ replicate 13 NUL] = Inr []"
proof -
  let ?fw = "''ABC'' @ replicate 13 NUL"
  have a: "parse_length_code ?fw = Inr (1, ?fw)"
    by (simp add: parse_length_code_def re_search_def FW_LEN_CODE_def in_charset_def)
  have b: "1 * FW_CHUNK_LEN = length ?fw" by (simp add: FW_CHUNK_LEN_def)
  have c: "index (split_chunks 1 ?fw) 0 = Inr ''ABC''"
    by (simp add: index_def split_chunks_def FW_CHUNK_LEN_def strip_def strip_chars_def
        numeral_eq_Suc)
  have d: "length ''ABC'' < 8" by simp
  from get_platform_codes_total[of "[]" ?fw] a b c d
  have "get_platform_codes [?fw] = Inr []" by blast
  with a b c d show ?thesis by blast
qed

subsection \<open>Order and duplicates\<close>

text \<open>
  Claim C9. Two lists with the same elements, in any order and with any repetition, give
  the same dict from platform code to set of sub-versions. The dicts are equal as dicts
  (the same keys with the same sets); their insertion order can differ.
\<close>

theorem get_platform_codes_order_invariant:
  assumes "set fw_versions = set fw_versions'"
  shows "\<exists>codes codes'. get_platform_codes fw_versions = Inr codes
           \<and> get_platform_codes fw_versions' = Inr codes'
           \<and> distinct (map fst codes) \<and> distinct (map fst codes')
           \<and> map_of codes = map_of codes'"
proof -
  have "map_of (foldl add_contribution [] fw_versions) k
          = map_of (foldl add_contribution [] fw_versions') k" for k
    by (simp only: map_of_platform_codes contributed_cong[OF assms])
  then have "map_of (foldl add_contribution [] fw_versions)
          = map_of (foldl add_contribution [] fw_versions')"
    by (rule ext)
  moreover have "distinct (map fst (foldl add_contribution [] fws))" for fws
    using proper_platform_codes[of fws] by (simp add: proper_def)
  ultimately show ?thesis by (simp add: get_platform_codes_eq)
qed


theorem get_platform_codes_order_invariant_witness:
  "set [''8646F0701100'' @ [NUL, NUL, NUL, NUL], ''8646F0703000'' @ [NUL, NUL, NUL, NUL]]
     = set [''8646F0703000'' @ [NUL, NUL, NUL, NUL], ''8646F0701100'' @ [NUL, NUL, NUL, NUL],
            ''8646F0703000'' @ [NUL, NUL, NUL, NUL]]
   \<and> (\<exists>codes codes'.
         get_platform_codes
           [''8646F0701100'' @ [NUL, NUL, NUL, NUL], ''8646F0703000'' @ [NUL, NUL, NUL, NUL]]
           = Inr codes
         \<and> get_platform_codes
             [''8646F0703000'' @ [NUL, NUL, NUL, NUL], ''8646F0701100'' @ [NUL, NUL, NUL, NUL],
              ''8646F0703000'' @ [NUL, NUL, NUL, NUL]]
             = Inr codes'
         \<and> map_of codes = map_of codes')"
proof -
  let ?a = "''8646F0701100'' @ [NUL, NUL, NUL, NUL]"
  let ?b = "''8646F0703000'' @ [NUL, NUL, NUL, NUL]"
  have s: "set [?a, ?b] = set [?b, ?a, ?b]" by auto
  from get_platform_codes_order_invariant[OF s] s show ?thesis by blast
qed

section \<open>Properties of match_fw_to_car_fuzzy\<close>

subsection \<open>The loops\<close>

lemma keys_platform_codes: "set (map fst (foldl add_contribution [] fws)) = keys_of fws"
proof -
  have "dom (map_of (foldl add_contribution [] fws)) = keys_of fws"
    unfolding keys_of_def dom_def map_of_platform_codes by (simp split: if_splits)
  then show ?thesis
    by (simp only: dom_map_of_conv_image_fst set_map)
qed

lemma keys_of_Nil: "keys_of [] = {}"
  by (simp add: keys_of_def contributed_def)


lemma ecu_loop_Cons:
  "ecu_loop live ((ecu, expected_versions) # rest) found =
     (if fst ecu \<notin> set PLATFORM_CODE_ECUS then ecu_loop live rest found
      else if \<not> ecu_passes live ecu expected_versions then Inr found
      else ecu_loop live rest (insert (snd ecu) found))"
proof -
  have "list_ex (\<lambda>k. k \<in> set (map fst (foldl add_contribution [] expected_versions)))
          (map fst (foldl add_contribution [] (live_get live (snd ecu))))
        = ecu_passes live ecu expected_versions"
    unfolding list_ex_iff keys_platform_codes ecu_passes_def by auto
  then show ?thesis
    by (simp add: get_platform_codes_eq Let_def)
qed

declare ecu_loop.simps(2) [simp del]

lemma ecu_loop_total: "\<exists>found'. ecu_loop live fws found = Inr found'"
proof (induction fws arbitrary: found)
  case Nil
  then show ?case by simp
next
  case (Cons p fws)
  obtain ecu ev where p: "p = (ecu, ev)" by (cases p)
  show ?case unfolding p ecu_loop_Cons using Cons.IH by simp
qed

lemma ecu_loop_found:
  assumes "ecu_loop live fws found = Inr found'" and "a \<in> found'"
  shows "a \<in> found \<or> (\<exists>(ecu, ev) \<in> set fws. snd ecu = a \<and> ecu_passes live ecu ev)"
  using assms
proof (induction fws arbitrary: found)
  case Nil
  then show ?case by simp
next
  case (Cons p fws)
  obtain ecu ev where p: "p = (ecu, ev)" by (cases p)
  show ?case
  proof (cases "fst ecu \<notin> set PLATFORM_CODE_ECUS")
    case True
    with Cons.prems have "ecu_loop live fws found = Inr found'"
      by (simp add: p ecu_loop_Cons)
    from Cons.IH[OF this Cons.prems(2)] show ?thesis by auto
  next
    case False
    show ?thesis
    proof (cases "ecu_passes live ecu ev")
      case True
      with False Cons.prems have "ecu_loop live fws (insert (snd ecu) found) = Inr found'"
        by (simp add: p ecu_loop_Cons)
      from Cons.IH[OF this Cons.prems(2)] True show ?thesis by (auto simp: p)
    next
      case no: False
      with False Cons.prems have "found' = found"
        by (simp add: p ecu_loop_Cons)
      with Cons.prems(2) show ?thesis by simp
    qed
  qed
qed


lemma candidate_loop_eq:
  "candidate_loop live fw_versions candidates =
     Inr (candidates \<union> {c. \<exists>fws. (c, fws) \<in> set fw_versions \<and> accepted live fws})"
proof (induction fw_versions arbitrary: candidates)
  case Nil
  then show ?case by simp
next
  case (Cons p fw_versions)
  obtain c fws where p: "p = (c, fws)" by (cases p)
  obtain found where found: "ecu_loop live fws {} = Inr found"
    using ecu_loop_total by blast
  then have acc: "accepted live fws = (valid_expected_ecus fws \<subseteq> found)"
    by (simp add: accepted_def)
  show ?case
    unfolding p by (simp add: found Cons.IH acc) (auto simp: acc)
qed

lemma match_eq:
  "match_fw_to_car_fuzzy fw_versions excluded live =
     Inr ({c. \<exists>fws. (c, fws) \<in> set fw_versions \<and> accepted live fws} - excluded)"
  by (simp add: match_fw_to_car_fuzzy_def candidate_loop_eq)

subsection \<open>The exclusion set\<close>

text \<open>
  Claim C2. For every catalog, every exclusion set and every live firmware input the
  function returns a set, and no member of the exclusion set is in it.
\<close>

theorem excluded_never_returned:
  "\<exists>result. match_fw_to_car_fuzzy fw_versions fuzzy_excluded_platforms live_fw_versions
               = Inr result
           \<and> result \<inter> fuzzy_excluded_platforms = {}"
  by (auto simp: match_eq)

subsection \<open>A required ECU without live firmware\<close>

text \<open>
  Claim C3. Let a candidate of the catalog have an entry for an ECU whose kind is in
  \<^verbatim>\<open>PLATFORM_CODE_ECUS\<close>. If the live firmware versions have no entry at the address of that
  ECU, or an empty one, the candidate is not in the result. The catalog is a dict: its
  keys are distinct.
\<close>

theorem absent_required_ecu_rejects:
  assumes "distinct (map fst fw_versions)"
      and "(candidate, fws) \<in> set fw_versions"
      and "(ecu, expected_versions) \<in> set fws"
      and "fst ecu \<in> set PLATFORM_CODE_ECUS"
      and "live_fw_versions (snd ecu) = None \<or> live_fw_versions (snd ecu) = Some []"
  shows "\<exists>result. match_fw_to_car_fuzzy fw_versions fuzzy_excluded_platforms live_fw_versions
                     = Inr result
                 \<and> candidate \<notin> result"
proof -
  have empty: "live_get live_fw_versions (snd ecu) = []"
    using assms(5) by (auto simp: live_get_def)
  have "\<not> accepted live_fw_versions fws"
  proof
    assume "accepted live_fw_versions fws"
    then obtain found where found: "ecu_loop live_fw_versions fws {} = Inr found"
      and sub: "valid_expected_ecus fws \<subseteq> found"
      by (auto simp: accepted_def split: sum.splits)
    have "snd ecu \<in> valid_expected_ecus fws"
      using assms(3,4) by (force simp: valid_expected_ecus_def)
    with sub have "snd ecu \<in> found" by blast
    from ecu_loop_found[OF found this]
    obtain ecu' ev' where "snd ecu' = snd ecu" "ecu_passes live_fw_versions ecu' ev'"
      by auto
    then show False by (simp add: ecu_passes_def empty keys_of_Nil)
  qed
  moreover have "fws' = fws" if "(candidate, fws') \<in> set fw_versions" for fws'
    using assms(1,2) that by (meson eq_key_imp_eq_value)
  ultimately have "candidate \<notin> {c. \<exists>fws. (c, fws) \<in> set fw_versions \<and> accepted live_fw_versions fws}"
    by blast
  then show ?thesis by (simp add: match_eq)
qed

subsection \<open>Live firmware identical to the catalog\<close>





theorem absent_required_ecu_rejects_witness:
  "\<exists>result.
     match_fw_to_car_fuzzy FW_VERSIONS {}
       (map_of
          [((0x7b0, None), [''F152607060'' @ [NUL, NUL, NUL, NUL, NUL, NUL]]),
           ((0x7a1, None), []),
           ((0x750, Some 0x6d), [''8646F0701100'' @ [NUL, NUL, NUL, NUL]])])
       = Inr result
     \<and> RSG_OFFROAD \<notin> result"
proof -
  let ?live = "map_of
          [((0x7b0, None), [''F152607060'' @ [NUL, NUL, NUL, NUL, NUL, NUL]]),
           ((0x7a1, None), []),
           ((0x750, Some 0x6d), [''8646F0701100'' @ [NUL, NUL, NUL, NUL]])] :: live_fw"
  let ?fws = "snd (hd FW_VERSIONS)"
  have a: "distinct (map fst FW_VERSIONS)" by (simp add: FW_VERSIONS_def)
  have b: "(RSG_OFFROAD, ?fws) \<in> set FW_VERSIONS" by (simp add: FW_VERSIONS_def)
  have c: "((Ecu_eps, 0x7a1, None), [''8965B41051'' @ [NUL, NUL, NUL, NUL, NUL, NUL]]) \<in> set ?fws"
    by (simp add: FW_VERSIONS_def)
  have d: "fst (Ecu_eps, (0x7a1 :: nat), (None :: nat option)) \<in> set PLATFORM_CODE_ECUS"
    by (simp add: PLATFORM_CODE_ECUS_def)
  have e: "?live (snd (Ecu_eps, 0x7a1, None)) = None \<or> ?live (snd (Ecu_eps, 0x7a1, None)) = Some []"
    by simp
  from absent_required_ecu_rejects
         [where fw_versions = FW_VERSIONS and candidate = RSG_OFFROAD and fws = ?fws
            and ecu = "(Ecu_eps, 0x7a1, None)" and live_fw_versions = ?live
            and fuzzy_excluded_platforms = "{}", OF a b c d e]
  show ?thesis .
qed

section \<open>The steer command\<close>

lemma steer_command_raises:
  "create_toyota_steer_command mk steer steer_req =
     (case int_operand steer_req of
        Inl e \<Rightarrow> Inl e
      | Inr i \<Rightarrow> Inl (KeyError ''TOYOTA_COUNTER''))"
  by (simp add: create_toyota_steer_command_def getitem_def and_then_def split: sum.split)

text \<open>
  Claim C10, as amended. \<^verbatim>\<open>create_toyota_steer_command\<close> never returns normally. With an
  integer or a bool as \<^verbatim>\<open>steer_req\<close> it reads the key \<^verbatim>\<open>TOYOTA_COUNTER\<close> of a dict that has
  no such key and raises KeyError; with a float or \<^verbatim>\<open>None\<close> the \<^verbatim>\<open>&\<close> before that read
  raises TypeError. \<^verbatim>\<open>CarController.update\<close>, which calls it in every frame, raises in every
  frame, whatever the functions of the other modules return.
\<close>

theorem steer_command_never_returns:
  "create_toyota_steer_command packer steer (PyInt i) = Inl (KeyError ''TOYOTA_COUNTER'')
   \<and> create_toyota_steer_command packer steer (PyBool b) = Inl (KeyError ''TOYOTA_COUNTER'')
   \<and> create_toyota_steer_command packer steer (PyFloat x) = Inl TypeError
   \<and> create_toyota_steer_command packer steer PyNone = Inl TypeError
   \<and> (\<exists>e. create_toyota_steer_command packer steer steer_req = Inl e)
   \<and> (\<exists>e. snd (update ext self CC CS now_nanos) = Inl e)"
proof -
  have "\<exists>e. create_toyota_steer_command packer steer steer_req = Inl e"
    by (cases steer_req) (simp_all add: steer_command_raises)
  moreover have "\<exists>e. snd (update ext self CC CS now_nanos) = Inl e"
    unfolding update_def Let_def steer_command_raises
    by (auto split: sum.splits prod.splits)
  ultimately show ?thesis by (simp add: steer_command_raises)
qed

text \<open>
  Claim C10 as stated, with KeyError for every input, fails for a float request: the
  call raises TypeError and never reads the key.
\<close>

theorem steer_command_float_request_counterexample:
  "create_toyota_steer_command (\<lambda>name bus values. Inr values) (PyInt 0) (PyFloat (1 / 2))
     = Inl TypeError
   \<and> create_toyota_steer_command (\<lambda>name bus values. Inr values) (PyInt 0) (PyFloat (1 / 2))
     \<noteq> Inl (KeyError ''TOYOTA_COUNTER'')"
  by (simp add: create_toyota_steer_command_def getitem_def and_then_def)

end
